theory Spec2Isabelle
  imports Complex_Main
begin

section \<open>Student face system: matching, registration and login policy of \<open>new.py\<close>\<close>

text \<open>
  The program is a Streamlit script. Its own logic is three functions
  (\<open>fetch_registered\<close>, \<open>post_student\<close>, \<open>find_match\<close>) and two button handlers
  (Register, Login). The libraries it calls (requests, numpy, scikit-learn) are not
  part of the repository: what they compute is taken as a parameter (the HTTP
  exchanges, \<open>np.fromstring\<close>, \<open>str\<close> of a float, the clock, the array that
  \<open>cosine_similarity\<close> returns, the float subtraction \<open>1 - threshold\<close>).

  A finite float64 is modelled by the real number it denotes. Comparing two floats is
  comparing the reals they denote; float arithmetic rounds, and is never replaced by
  the arithmetic of the reals: every arithmetic result is a result of a parameter.
\<close>

subsection \<open>Python values\<close>

text \<open>
  The exceptions that occur. \<open>HTTPError\<close> stands for every failure of an HTTP exchange
  (connection error, timeout, non-2xx status, a body that is not JSON) and carries its
  text. All of them are instances of \<open>Exception\<close>, so \<open>except Exception\<close> catches each.
\<close>

datatype exn =
    KeyError string
  | TypeError
  | AttributeError
  | ValueError
  | IndexError
  | HTTPError string

text \<open>
  A decoded JSON value, as \<open>resp.json()\<close> returns it. An object is the association
  list of a Python \<open>dict\<close>; the decoder has already resolved repeated keys.
\<close>

datatype json =
    JNull
  | JBool bool
  | JNum real
  | JStr string
  | JArr "json list"
  | JObj "(string \<times> json) list"

type_synonym embedding = "real list"

subsection \<open>The numeric library\<close>

text \<open>
  What numpy and scikit-learn compute in float64:
  \<^item> \<open>cosine_entry known q k\<close> is entry \<open>k\<close> of
    \<open>cosine_similarity(np.array(known), q.reshape(1, -1)).flatten()\<close>, the similarity
    computed for row \<open>k\<close> of the batch. The array has one entry per row. Its entries
    are finite floats: the library refuses inputs that are not finite, and a norm that
    is zero or has overflowed makes an entry zero, not \<open>nan\<close>;
  \<^item> \<open>one_minus t\<close> is the float that \<open>1 - t\<close> evaluates to.
\<close>

record lib =
  cosine_entry :: "embedding list \<Rightarrow> embedding \<Rightarrow> nat \<Rightarrow> real"
  one_minus :: "real \<Rightarrow> real"

text \<open>The float that the literal \<open>0.4\<close> denotes, the default of \<open>threshold\<close>.\<close>

definition default_threshold :: real where
  "default_threshold = 3602879701896397 / 9007199254740992"

text \<open>
  \<open>np.argmax\<close> on a non-empty one-dimensional array of finite floats: a left-to-right
  scan that keeps the best index so far and replaces it only by a strictly larger entry,
  so the first occurrence of the maximum wins. \<open>argmax_scan xs i b bi\<close> scans \<open>xs\<close>, whose
  first entry has index \<open>i\<close>, with \<open>b\<close> the best value so far, found at index \<open>bi\<close>.
\<close>

fun argmax_scan :: "real list \<Rightarrow> nat \<Rightarrow> real \<Rightarrow> nat \<Rightarrow> nat" where
  "argmax_scan [] i b bi = bi"
| "argmax_scan (x # xs) i b bi =
     (if b < x then argmax_scan xs (Suc i) x i else argmax_scan xs (Suc i) b bi)"

definition argmax :: "real list \<Rightarrow> exn + nat" where
  "argmax xs = (case xs of [] \<Rightarrow> Inl ValueError | x # rest \<Rightarrow> Inr (argmax_scan rest 1 x 0))"

subsection \<open>The Matcher: \<open>find_match\<close>\<close>

text \<open>
  \<open>np.array(known_embs)\<close> and \<open>cosine_similarity\<close> raise \<open>ValueError\<close> unless every known
  row has the dimension of the query and that dimension is positive.
\<close>

definition shapes_ok :: "embedding list \<Rightarrow> embedding \<Rightarrow> bool" where
  "shapes_ok known_embs test_emb \<longleftrightarrow>
     0 < length test_emb \<and> list_all (\<lambda>k. length k = length test_emb) known_embs"

text \<open>
  \<^verbatim>\<open>
  def find_match(known_embs, test_emb, threshold=0.4):
      if not known_embs:
          return None
      test_emb = test_emb.reshape(1, -1)
      known_embs_np = np.array(known_embs)
      sims = cosine_similarity(known_embs_np, test_emb).flatten()
      best_idx = np.argmax(sims)
      if sims[best_idx] > (1 - threshold):
          return best_idx
      return None
  \<close>
  \<open>sims_of\<close> is the array \<open>sims\<close>: the entries that the library returns, one per row.
\<close>

definition sims_of :: "lib \<Rightarrow> embedding list \<Rightarrow> embedding \<Rightarrow> real list" where
  "sims_of lib known_embs test_emb =
     map (cosine_entry lib known_embs test_emb) [0..<length known_embs]"

definition find_match :: "lib \<Rightarrow> embedding list \<Rightarrow> embedding \<Rightarrow> real \<Rightarrow> exn + nat option" where
  "find_match lib known_embs test_emb threshold =
     (if known_embs = [] then Inr None
      else if \<not> shapes_ok known_embs test_emb then Inl ValueError
      else
        let sims = sims_of lib known_embs test_emb in
        case argmax sims of
          Inl e \<Rightarrow> Inl e
        | Inr best_idx \<Rightarrow>
            if sims ! best_idx > one_minus lib threshold then Inr (Some best_idx) else Inr None)"

subsection \<open>Strings, lists and dictionaries of Python\<close>

text \<open>
  \<open>str.isspace\<close> on one character of the ASCII range: tab, line feed, vertical tab,
  form feed, carriage return, the four separators \<open>0x1C\<close> to \<open>0x1F\<close>, and space.
\<close>

definition isspace :: "char \<Rightarrow> bool" where
  "isspace c \<longleftrightarrow>
     c \<in> set [CHR 0x09, CHR 0x0A, CHR 0x0B, CHR 0x0C, CHR 0x0D,
               CHR 0x1C, CHR 0x1D, CHR 0x1E, CHR 0x1F, CHR 0x20]"

text \<open>\<open>s.strip()\<close>: leading and trailing whitespace removed.\<close>

definition strip :: "string \<Rightarrow> string" where
  "strip s = rev (dropWhile isspace (rev (dropWhile isspace s)))"

text \<open>\<open>sep.join(parts)\<close>.\<close>

fun join :: "string \<Rightarrow> string list \<Rightarrow> string" where
  "join sep [] = []"
| "join sep [s] = s"
| "join sep (s # t # ts) = s @ sep @ join sep (t # ts)"

text \<open>\<open>xs[i]\<close> for an index that is not negative: \<open>IndexError\<close> out of range.\<close>

definition index :: "'a list \<Rightarrow> nat \<Rightarrow> exn + 'a" where
  "index xs i = (if i < length xs then Inr (xs ! i) else Inl IndexError)"

text \<open>
  \<open>d[key]\<close> with a string key: \<open>KeyError\<close> on a dict without the key, \<open>TypeError\<close> on every
  other JSON value (a list or a string wants an integer, the rest cannot be subscripted).
\<close>

definition subscript :: "json \<Rightarrow> string \<Rightarrow> exn + json" where
  "subscript d key =
     (case d of
        JObj kvs \<Rightarrow> (case map_of kvs key of None \<Rightarrow> Inl (KeyError key) | Some v \<Rightarrow> Inr v)
      | _ \<Rightarrow> Inl TypeError)"

text \<open>\<open>d.get(key, default)\<close>: only a dict has the method.\<close>

definition get_or :: "json \<Rightarrow> string \<Rightarrow> json \<Rightarrow> exn + json" where
  "get_or d key dflt =
     (case d of
        JObj kvs \<Rightarrow> Inr (case map_of kvs key of None \<Rightarrow> dflt | Some v \<Rightarrow> v)
      | _ \<Rightarrow> Inl AttributeError)"

text \<open>
  \<open>for d in data\<close>: a list yields its elements, a dict its keys, a string its
  characters; \<open>None\<close>, a bool or a number is not iterable.
\<close>

definition iterate :: "json \<Rightarrow> exn + json list" where
  "iterate data =
     (case data of
        JArr ds \<Rightarrow> Inr ds
      | JObj kvs \<Rightarrow> Inr (map (\<lambda>kv. JStr (fst kv)) kvs)
      | JStr s \<Rightarrow> Inr (map (\<lambda>c. JStr [c]) s)
      | _ \<Rightarrow> Inl TypeError)"

subsection \<open>What the user is shown, and the outside world\<close>

text \<open>One constructor for each \<open>st.warning\<close>, \<open>st.error\<close>, \<open>st.info\<close> and \<open>st.success\<close> of the
  functions and handlers below, with the value that its text interpolates.\<close>

datatype msg =
    Warning_skipped_corrupted json
  | Warning_failed_to_parse json
  | Error_fetch_failed exn
  | Error_upload_failed exn
  | Error_no_face
  | Error_missing_fields
  | Info_same_person json
  | Success_registered
  | Error_no_students
  | Success_welcome json
  | Error_not_recognised

text \<open>
  The collaborators, over a state \<open>'w\<close> of the world outside the script:
  \<^item> \<open>http_get\<close>: \<open>requests.get(GAS_ENDPOINT, timeout=10)\<close>, \<open>raise_for_status()\<close> and
    \<open>resp.json()\<close> together: the decoded body, or the exception one of them raised;
  \<^item> \<open>http_post\<close>: \<open>requests.post(GAS_ENDPOINT, json=row, timeout=10).raise_for_status()\<close>:
    \<open>None\<close>, or the exception raised;
  \<^item> \<open>np_fromstring\<close>: \<open>np.fromstring(v, sep=",")\<close>;
  \<^item> \<open>str_float\<close>: \<open>str\<close> of a Python float;
  \<^item> \<open>now_iso\<close>: \<open>datetime.datetime.now().isoformat()\<close>.
\<close>

record 'w env =
  http_get :: "'w \<Rightarrow> (exn + json) \<times> 'w"
  http_post :: "json \<Rightarrow> 'w \<Rightarrow> exn option \<times> 'w"
  np_fromstring :: "json \<Rightarrow> exn + embedding"
  str_float :: "real \<Rightarrow> string"
  now_iso :: "'w \<Rightarrow> string"

text \<open>
  The script's state: the three module-level lists that \<open>fetch_registered()\<close> filled
  (\<open>st.cache_data\<close> keeps them between two runs of the script until the cache is
  cleared), \<open>st.session_state["logged_in"]\<close>, and the world. Two fields record what
  happened: \<open>shown\<close> the messages displayed, in order, and \<open>posts\<close> the rows passed to
  \<open>requests.post\<close>, in order.
\<close>

record 'w app =
  names_known :: "json list"
  embs_known :: "embedding list"
  full_data :: "json list"
  logged_in :: "json option"
  shown :: "msg list"
  posts :: "json list"
  world :: 'w

definition display :: "msg \<Rightarrow> 'w app \<Rightarrow> 'w app" where
  "display m a = a\<lparr>shown := shown a @ [m]\<rparr>"

subsection \<open>\<open>fetch_registered\<close>\<close>

text \<open>
  \<^verbatim>\<open>
  for d in data:
      try:
          emb = np.fromstring(d["encoding"], sep=",")
          if emb.size == 128:
              names.append(d["name"])
              embs.append(emb)
              full.append(d)
          else:
              st.warning(f"Skipped corrupted encoding for: {d['name']}")
      except Exception:
          st.warning(f"Failed to parse encoding for: {d.get('name', 'Unknown')}")
  \<close>
  \<open>try_record\<close> is the body of the inner \<open>try\<close>: the record is admitted, or a warning is
  shown, or an exception is raised before either. \<open>do_record\<close> adds the handler, whose
  own \<open>d.get\<close> may raise; that exception leaves the loop.
\<close>

datatype step = Admit json embedding | Warn msg

definition try_record :: "'w env \<Rightarrow> json \<Rightarrow> exn + step" where
  "try_record env d =
     (case subscript d ''encoding'' of
        Inl e \<Rightarrow> Inl e
      | Inr enc \<Rightarrow>
         (case np_fromstring env enc of
            Inl e \<Rightarrow> Inl e
          | Inr emb \<Rightarrow>
             if length emb = 128 then
               (case subscript d ''name'' of
                  Inl e \<Rightarrow> Inl e
                | Inr nm \<Rightarrow> Inr (Admit nm emb))
             else
               (case subscript d ''name'' of
                  Inl e \<Rightarrow> Inl e
                | Inr nm \<Rightarrow> Inr (Warn (Warning_skipped_corrupted nm)))))"

definition do_record :: "'w env \<Rightarrow> json \<Rightarrow> exn + step" where
  "do_record env d =
     (case try_record env d of
        Inr s \<Rightarrow> Inr s
      | Inl _ \<Rightarrow>
         (case get_or d ''name'' (JStr ''Unknown'') of
            Inl e \<Rightarrow> Inl e
          | Inr nm \<Rightarrow> Inr (Warn (Warning_failed_to_parse nm))))"

text \<open>The loop, with the three lists and the messages shown so far.\<close>

fun fetch_loop ::
  "'w env \<Rightarrow> json list \<Rightarrow> json list \<Rightarrow> embedding list \<Rightarrow> json list \<Rightarrow> msg list \<Rightarrow>
   (exn + json list \<times> embedding list \<times> json list) \<times> msg list" where
  "fetch_loop env [] names embs full out = (Inr (names, embs, full), out)"
| "fetch_loop env (d # ds) names embs full out =
     (case do_record env d of
        Inl e \<Rightarrow> (Inl e, out)
      | Inr (Admit nm emb) \<Rightarrow> fetch_loop env ds (names @ [nm]) (embs @ [emb]) (full @ [d]) out
      | Inr (Warn m) \<Rightarrow> fetch_loop env ds names embs full (out @ [m]))"

text \<open>
  \<^verbatim>\<open>
  def fetch_registered():
      try:
          resp = requests.get(GAS_ENDPOINT, timeout=10)
          resp.raise_for_status()
          data = resp.json()
          names, embs, full = [], [], []
          for d in data: ...
          return names, embs, full
      except Exception as e:
          st.error(f"Failed to fetch registered users: {e}")
          return [], [], []
  \<close>
  The result is the three lists, the messages shown, and the world after the request.
\<close>

definition fetch_registered ::
  "'w env \<Rightarrow> 'w \<Rightarrow> ((json list \<times> embedding list \<times> json list) \<times> msg list) \<times> 'w" where
  "fetch_registered env w =
     (case http_get env w of
        (resp, w') \<Rightarrow>
          ((case resp of
              Inl e \<Rightarrow> (([], [], []), [Error_fetch_failed e])
            | Inr data \<Rightarrow>
               (case iterate data of
                  Inl e \<Rightarrow> (([], [], []), [Error_fetch_failed e])
                | Inr ds \<Rightarrow>
                   (case fetch_loop env ds [] [] [] [] of
                      (Inl e, out) \<Rightarrow> (([], [], []), out @ [Error_fetch_failed e])
                    | (Inr r, out) \<Rightarrow> (r, out)))), w'))"

text \<open>
  \<open>fetch_registered.clear()\<close> followed by
  \<open>names_known, embs_known, full_data = fetch_registered()\<close>: the request is made and the
  three lists are replaced by what the function returns.
\<close>

definition reload :: "'w env \<Rightarrow> 'w app \<Rightarrow> 'w app" where
  "reload env a =
     (case fetch_registered env (world a) of
        (((names, embs, full), out), w') \<Rightarrow>
          a\<lparr>names_known := names, embs_known := embs, full_data := full,
            shown := shown a @ out, world := w'\<rparr>)"

text \<open>
  The Refresh button: \<open>fetch_registered.clear()\<close> and a rerun of the script, whose line
  \<open>names_known, embs_known, full_data = fetch_registered()\<close> then runs the function.
\<close>

definition refresh_click :: "'w env \<Rightarrow> 'w app \<Rightarrow> 'w app" where
  "refresh_click env a = reload env a"

subsection \<open>\<open>post_student\<close>\<close>

text \<open>
  \<^verbatim>\<open>
  def post_student(row):
      try:
          requests.post(GAS_ENDPOINT, json=row, timeout=10).raise_for_status()
      except Exception as e:
          st.error(f"Upload failed: {e}")
  \<close>
\<close>

definition post_student :: "'w env \<Rightarrow> json \<Rightarrow> 'w app \<Rightarrow> 'w app" where
  "post_student env row a =
     (case http_post env row (world a) of
        (None, w') \<Rightarrow> a\<lparr>posts := posts a @ [row], world := w'\<rparr>
      | (Some e, w') \<Rightarrow>
          a\<lparr>shown := shown a @ [Error_upload_failed e], posts := posts a @ [row], world := w'\<rparr>)"

subsection \<open>The Register and Login buttons\<close>

text \<open>
  \<^verbatim>\<open>
  if st.button("Register"):
      if emb is None:
          st.error("No face embedding detected. ...")
      elif not name.strip() or not sid.strip():
          st.error("Please enter both Full Name and Student ID.")
      else:
          match_idx = find_match(embs_known, emb)
          if match_idx is not None:
              st.info(f"Same person detected: {names_known[match_idx]}. Registration skipped.")
          else:
              new_row = {"timestamp": datetime.datetime.now().isoformat(),
                         "student_id": sid.strip(), "name": name.strip(),
                         "encoding": ",".join(map(str, emb.tolist()))}
              post_student(new_row)
              st.success("Registered successfully.")
              fetch_registered.clear()
              names_known, embs_known, full_data = fetch_registered()
  \<close>
  \<open>Inl\<close> is an exception that nothing catches: the run of the script ends there.
  \<open>find_match\<close> is called without a threshold, so with its default.
\<close>

definition new_row :: "'w env \<Rightarrow> 'w \<Rightarrow> string \<Rightarrow> string \<Rightarrow> embedding \<Rightarrow> json" where
  "new_row env w name sid emb =
     JObj [(''timestamp'', JStr (now_iso env w)),
           (''student_id'', JStr (strip sid)),
           (''name'', JStr (strip name)),
           (''encoding'', JStr (join '','' (map (str_float env) emb)))]"

definition register_click ::
  "lib \<Rightarrow> 'w env \<Rightarrow> embedding option \<Rightarrow> string \<Rightarrow> string \<Rightarrow> 'w app \<Rightarrow> exn + 'w app" where
  "register_click lib env emb name sid a =
     (case emb of
        None \<Rightarrow> Inr (display Error_no_face a)
      | Some e \<Rightarrow>
          if strip name = [] \<or> strip sid = [] then Inr (display Error_missing_fields a)
          else
            (case find_match lib (embs_known a) e default_threshold of
               Inl x \<Rightarrow> Inl x
             | Inr (Some match_idx) \<Rightarrow>
                 (case index (names_known a) match_idx of
                    Inl x \<Rightarrow> Inl x
                  | Inr nm \<Rightarrow> Inr (display (Info_same_person nm) a))
             | Inr None \<Rightarrow>
                 Inr (reload env
                       (display Success_registered
                         (post_student env (new_row env (world a) name sid e) a)))))"

text \<open>
  \<^verbatim>\<open>
  if st.button("Login", disabled=login_emb is None):
      if not embs_known:
          st.error("No students registered.")
      else:
          match_idx = find_match(embs_known, login_emb)
          if match_idx is not None:
              st.success(f"Welcome back, {names_known[match_idx]}!")
              st.session_state["logged_in"] = names_known[match_idx]
          else:
              st.error("Face not recognised. Please register.")
  \<close>
  A disabled button cannot be clicked: without an embedding nothing happens.
\<close>

definition login_click ::
  "lib \<Rightarrow> 'w env \<Rightarrow> embedding option \<Rightarrow> 'w app \<Rightarrow> exn + 'w app" where
  "login_click lib env login_emb a =
     (case login_emb of
        None \<Rightarrow> Inr a
      | Some e \<Rightarrow>
          if embs_known a = [] then Inr (display Error_no_students a)
          else
            (case find_match lib (embs_known a) e default_threshold of
               Inl x \<Rightarrow> Inl x
             | Inr (Some match_idx) \<Rightarrow>
                 (case index (names_known a) match_idx of
                    Inl x \<Rightarrow> Inl x
                  | Inr nm \<Rightarrow> Inr ((display (Success_welcome nm) a)\<lparr>logged_in := Some nm\<rparr>))
             | Inr None \<Rightarrow> Inr (display Error_not_recognised a)))"

subsection \<open>The record store\<close>

text \<open>
  Modelled from the spec: the external Record Store behind \<open>GAS_ENDPOINT\<close>, which the
  repository does not contain. The spec says that it "fetches the full list of
  registered identity records" and "appends new records". The world is the list of
  rows of the sheet: a fetch returns all rows and changes nothing, an append puts the
  row at the end, and both succeed.
\<close>

definition sheet_get :: "json list \<Rightarrow> (exn + json) \<times> json list" where
  "sheet_get rows = (Inr (JArr rows), rows)"

definition sheet_post :: "json \<Rightarrow> json list \<Rightarrow> exn option \<times> json list" where
  "sheet_post row rows = (None, rows @ [row])"

definition sheet_env ::
  "(json \<Rightarrow> exn + embedding) \<Rightarrow> (real \<Rightarrow> string) \<Rightarrow> string \<Rightarrow> json list env" where
  "sheet_env parse fmt clock =
     \<lparr>http_get = sheet_get, http_post = sheet_post, np_fromstring = parse,
      str_float = fmt, now_iso = (\<lambda>_. clock)\<rparr>"

text \<open>
  The same store with failures: when \<open>get_err\<close> or \<open>post_err\<close> is given, the request of
  that kind raises it and the sheet stays as it is.
\<close>

definition flaky_env ::
  "exn option \<Rightarrow> exn option \<Rightarrow> (json \<Rightarrow> exn + embedding) \<Rightarrow> (real \<Rightarrow> string) \<Rightarrow> string \<Rightarrow>
   json list env" where
  "flaky_env get_err post_err parse fmt clock =
     \<lparr>http_get = (\<lambda>rows. case get_err of None \<Rightarrow> sheet_get rows | Some e \<Rightarrow> (Inl e, rows)),
      http_post = (\<lambda>row rows. case post_err of None \<Rightarrow> sheet_post row rows | Some e \<Rightarrow> (Some e, rows)),
      np_fromstring = parse, str_float = fmt, now_iso = (\<lambda>_. clock)\<rparr>"

subsection \<open>Notions used in the properties\<close>

text \<open>\<open>i\<close> is the first index at which \<open>xs\<close> takes its maximum.\<close>

definition first_max_index :: "real list \<Rightarrow> nat \<Rightarrow> bool" where
  "first_max_index xs i \<longleftrightarrow>
     i < length xs \<and> (\<forall>j<length xs. xs ! j \<le> xs ! i) \<and> (\<forall>j<i. xs ! j < xs ! i)"

definition is_obj :: "json \<Rightarrow> bool" where
  "is_obj d = (case d of JObj _ \<Rightarrow> True | _ \<Rightarrow> False)"

definition is_warning :: "msg \<Rightarrow> bool" where
  "is_warning m =
     (case m of Warning_skipped_corrupted _ \<Rightarrow> True | Warning_failed_to_parse _ \<Rightarrow> True | _ \<Rightarrow> False)"

text \<open>
  The record's \<open>encoding\<close> parses into exactly 128 components: the field is there,
  \<open>np.fromstring\<close> returns, and the array has size 128.
\<close>

definition parses_to_128 :: "'w env \<Rightarrow> json \<Rightarrow> bool" where
  "parses_to_128 env d =
     (case subscript d ''encoding'' of
        Inl _ \<Rightarrow> False
      | Inr enc \<Rightarrow> (case np_fromstring env enc of Inl _ \<Rightarrow> False | Inr emb \<Rightarrow> length emb = 128))"

definition has_name :: "json \<Rightarrow> bool" where
  "has_name d = (case subscript d ''name'' of Inl _ \<Rightarrow> False | Inr _ \<Rightarrow> True)"

text \<open>The name and the parsed embedding of a record that has them.\<close>

definition name_of :: "json \<Rightarrow> json" where
  "name_of d = (case subscript d ''name'' of Inl _ \<Rightarrow> JNull | Inr nm \<Rightarrow> nm)"

definition emb_of :: "'w env \<Rightarrow> json \<Rightarrow> embedding" where
  "emb_of env d =
     (case subscript d ''encoding'' of
        Inl _ \<Rightarrow> []
      | Inr enc \<Rightarrow> (case np_fromstring env enc of Inl _ \<Rightarrow> [] | Inr emb \<Rightarrow> emb))"

text \<open>\<open>np.fromstring\<close> returns on the record's \<open>encoding\<close>, whatever the size.\<close>

definition parses :: "'w env \<Rightarrow> json \<Rightarrow> bool" where
  "parses env d =
     (case subscript d ''encoding'' of
        Inl _ \<Rightarrow> False
      | Inr enc \<Rightarrow> (case np_fromstring env enc of Inl _ \<Rightarrow> False | Inr _ \<Rightarrow> True))"

text \<open>The record is admitted into the KnownSet.\<close>

definition admitted :: "'w env \<Rightarrow> json \<Rightarrow> bool" where
  "admitted env d \<longleftrightarrow> parses_to_128 env d \<and> has_name d"

text \<open>The warning shown for a JSON object that is not admitted.\<close>

definition warning_for :: "'w env \<Rightarrow> json \<Rightarrow> msg" where
  "warning_for env d =
     (if parses env d \<and> has_name d then Warning_skipped_corrupted (name_of d)
      else Warning_failed_to_parse (if has_name d then name_of d else JStr ''Unknown''))"

text \<open>The embeddings of the KnownSet that a fetch of these rows yields.\<close>

definition reloaded_embs :: "'w env \<Rightarrow> json list \<Rightarrow> embedding list" where
  "reloaded_embs env rows = map (emb_of env) (filter (admitted env) rows)"

text \<open>The three lists of the script have one entry per admitted record.\<close>

definition lockstep :: "'w app \<Rightarrow> bool" where
  "lockstep a \<longleftrightarrow>
     length (names_known a) = length (embs_known a) \<and> length (full_data a) = length (embs_known a)"

subsection \<open>Example data\<close>

text \<open>
  Three embeddings of dimension 128: two orthogonal unit vectors and the zero vector.
  \<open>str01\<close> is \<open>str\<close> on the floats \<open>0.0\<close> and \<open>1.0\<close>; \<open>fromstring01\<close> is \<open>np.fromstring\<close> with
  \<open>sep=","\<close> on texts whose numbers are among \<open>0.0\<close>, \<open>1.0\<close>, \<open>1\<close>, \<open>2\<close>, \<open>3\<close>.
\<close>

definition unit_emb :: embedding where
  "unit_emb = 1 # replicate 127 0"

definition second_emb :: embedding where
  "second_emb = 0 # 1 # replicate 126 0"

definition zero_emb :: embedding where
  "zero_emb = replicate 128 0"

definition str01 :: "real \<Rightarrow> string" where
  "str01 x = (if x = 0 then ''0.0'' else ''1.0'')"

fun split_commas :: "string \<Rightarrow> string list" where
  "split_commas [] = [[]]"
| "split_commas (c # cs) =
     (if c = CHR '','' then [] # split_commas cs
      else (case split_commas cs of [] \<Rightarrow> [[c]] | t # ts \<Rightarrow> (c # t) # ts))"

definition number01 :: "string \<Rightarrow> real option" where
  "number01 t =
     (if t = ''0.0'' then Some 0 else if t = ''1.0'' then Some 1
      else if t = ''1'' then Some 1 else if t = ''2'' then Some 2
      else if t = ''3'' then Some 3 else None)"

definition fromstring01 :: "json \<Rightarrow> exn + embedding" where
  "fromstring01 v =
     (case v of
        JStr s \<Rightarrow>
          (let ns = map number01 (split_commas s)
           in if list_all (\<lambda>n. n \<noteq> None) ns then Inr (map the ns) else Inl ValueError)
      | _ \<Rightarrow> Inl TypeError)"


text \<open>
  What the numeric library returns on the example data. A row and a query whose
  components are \<open>0.0\<close> except for at most one \<open>1.0\<close> have the norm \<open>1.0\<close>, or \<open>0.0\<close> which
  scikit-learn replaces by \<open>1.0\<close>; dividing by it changes nothing, and the products and
  sums of the dot product are of \<open>0.0\<close> and \<open>1.0\<close>: no operation rounds, and the entry is
  the dot product. For the float \<open>0.4\<close> the difference \<open>1 - 0.4\<close> is a float, so the
  subtraction does not round either. \<open>lib01\<close> is used on such inputs only.
\<close>

definition dot :: "embedding \<Rightarrow> embedding \<Rightarrow> real" where
  "dot x y = sum_list (map2 (*) x y)"

definition lib01 :: lib where
  "lib01 = \<lparr>cosine_entry = (\<lambda>known q k. dot (known ! k) q), one_minus = (\<lambda>t. 1 - t)\<rparr>"

text \<open>
  A script that has just started against an empty sheet; a sheet with one record,
  Ann's, already loaded; and a stored record whose encoding has three components.
\<close>

definition app0 :: "json list app" where
  "app0 = \<lparr>names_known = [], embs_known = [], full_data = [], logged_in = None,
           shown = [], posts = [], world = []\<rparr>"

definition row_ann :: json where
  "row_ann = JObj [(''timestamp'', JStr ''2024-05-01T09:00:00''), (''student_id'', JStr ''S1''),
                   (''name'', JStr ''Ann''), (''encoding'', JStr (join '','' (map str01 unit_emb)))]"

definition row_bob :: json where
  "row_bob = JObj [(''name'', JStr ''Bob''), (''encoding'', JStr ''1,2,3'')]"

definition app_ann :: "json list app" where
  "app_ann = \<lparr>names_known = [JStr ''Ann''], embs_known = [unit_emb], full_data = [row_ann],
              logged_in = None, shown = [], posts = [], world = [row_ann]\<rparr>"

text \<open>What two registrations of the zero embedding leave behind, from an empty sheet.\<close>

definition zero_row :: json where
  "zero_row = JObj [(''timestamp'', JStr ''2024-05-01T09:00:00''), (''student_id'', JStr ''S1''),
                    (''name'', JStr ''Ann''), (''encoding'', JStr (join '','' (map str01 zero_emb)))]"

definition zero_once :: "json list app" where
  "zero_once = \<lparr>names_known = [JStr ''Ann''], embs_known = [zero_emb], full_data = [zero_row],
                logged_in = None, shown = [Success_registered], posts = [zero_row],
                world = [zero_row]\<rparr>"

definition zero_twice :: "json list app" where
  "zero_twice = \<lparr>names_known = [JStr ''Ann'', JStr ''Ann''], embs_known = [zero_emb, zero_emb],
                 full_data = [zero_row, zero_row], logged_in = None,
                 shown = [Success_registered, Success_registered], posts = [zero_row, zero_row],
                 world = [zero_row, zero_row]\<rparr>"

section \<open>Properties\<close>

subsection \<open>Arg-max\<close>

lemma argmax_scan_first_max:
  "i = length pre \<Longrightarrow> bi < i \<Longrightarrow> b = pre ! bi \<Longrightarrow> \<forall>j<i. pre ! j \<le> b \<Longrightarrow> \<forall>j<bi. pre ! j < b
   \<Longrightarrow> first_max_index (pre @ xs) (argmax_scan xs i b bi)"
proof (induction xs arbitrary: pre i b bi)
  case Nil
  then show ?case by (simp add: first_max_index_def)
next
  case (Cons x xs)
  show ?case
  proof (cases "b < x")
    case True
    have "first_max_index ((pre @ [x]) @ xs) (argmax_scan xs (Suc i) x i)"
    proof (rule Cons.IH)
      show "Suc i = length (pre @ [x])" using Cons.prems by simp
      show "i < Suc i" by simp
      show "x = (pre @ [x]) ! i" using Cons.prems by simp
      show "\<forall>j<Suc i. (pre @ [x]) ! j \<le> x"
        using Cons.prems True by (auto simp: nth_append less_Suc_eq intro: order_trans less_imp_le)
      show "\<forall>j<i. (pre @ [x]) ! j < x"
        using Cons.prems True by (auto simp: nth_append intro: le_less_trans)
    qed
    with True show ?thesis by simp
  next
    case False
    have "first_max_index ((pre @ [x]) @ xs) (argmax_scan xs (Suc i) b bi)"
    proof (rule Cons.IH)
      show "Suc i = length (pre @ [x])" using Cons.prems by simp
      show "bi < Suc i" using Cons.prems by simp
      show "b = (pre @ [x]) ! bi" using Cons.prems by (simp add: nth_append)
      show "\<forall>j<Suc i. (pre @ [x]) ! j \<le> b"
        using Cons.prems False by (auto simp: nth_append less_Suc_eq)
      show "\<forall>j<bi. (pre @ [x]) ! j < b"
        using Cons.prems by (auto simp: nth_append)
    qed
    with False show ?thesis by simp
  qed
qed

lemma argmax_first_max:
  "xs \<noteq> [] \<Longrightarrow> \<exists>i. argmax xs = Inr i \<and> first_max_index xs i"
proof (cases xs)
  case Nil
  assume "xs \<noteq> []" with Nil show ?thesis by simp
next
  case (Cons x rest)
  have "first_max_index ([x] @ rest) (argmax_scan rest 1 x 0)"
    by (rule argmax_scan_first_max) simp_all
  with Cons show ?thesis by (simp add: argmax_def)
qed

lemma first_max_index_unique:
  "first_max_index xs i \<Longrightarrow> first_max_index xs j \<Longrightarrow> i = j"
  unfolding first_max_index_def
  by (metis leD linorder_neqE_nat)

lemma sims_of_length [simp]: "length (sims_of lib known q) = length known"
  by (simp add: sims_of_def)

lemma sims_of_nth: "k < length known \<Longrightarrow> sims_of lib known q ! k = cosine_entry lib known q k"
  by (simp add: sims_of_def)

lemma find_match_cases:
  assumes "known \<noteq> []" and "shapes_ok known q"
  shows "\<exists>i. first_max_index (sims_of lib known q) i \<and>
             find_match lib known q t =
               Inr (if sims_of lib known q ! i > one_minus lib t then Some i else None)"
proof -
  from assms(1) have "sims_of lib known q \<noteq> []" by (simp add: sims_of_def)
  then obtain i where i: "argmax (sims_of lib known q) = Inr i" "first_max_index (sims_of lib known q) i"
    using argmax_first_max by blast
  with assms have "find_match lib known q t =
      Inr (if sims_of lib known q ! i > one_minus lib t then Some i else None)"
    by (simp add: find_match_def Let_def)
  with i show ?thesis by blast
qed

lemma find_match_bound:
  assumes "find_match lib known q t = Inr (Some i)"
  shows "i < length known"
proof -
  from assms have k: "known \<noteq> []" and s: "shapes_ok known q"
    by (auto simp: find_match_def split: if_splits)
  from find_match_cases [OF k s, of lib t] obtain j where
    j: "first_max_index (sims_of lib known q) j"
       "find_match lib known q t =
          Inr (if sims_of lib known q ! j > one_minus lib t then Some j else None)"
    by blast
  with assms have "i = j" by (auto split: if_splits)
  with j(1) show ?thesis by (simp add: first_max_index_def)
qed

subsection \<open>The fetch loop\<close>

lemma do_record_obj:
  assumes "is_obj d"
  shows "do_record env d =
           Inr (if admitted env d then Admit (name_of d) (emb_of env d) else Warn (warning_for env d))"
proof -
  from assms obtain kvs where d: "d = JObj kvs"
    by (cases d) (simp_all add: is_obj_def)
  show ?thesis
    unfolding d
    by (simp add: do_record_def try_record_def get_or_def subscript_def admitted_def
        parses_to_128_def parses_def has_name_def name_of_def emb_of_def warning_for_def
        split: option.splits sum.splits)
qed

lemma warning_for_is_warning: "is_warning (warning_for env d)"
  by (simp add: warning_for_def is_warning_def)

lemma fetch_loop_objs:
  "list_all is_obj ds \<Longrightarrow>
   fetch_loop env ds names embs full out =
     (Inr (names @ map name_of (filter (admitted env) ds),
           embs @ map (emb_of env) (filter (admitted env) ds),
           full @ filter (admitted env) ds),
      out @ map (warning_for env) (filter (\<lambda>d. \<not> admitted env d) ds))"
proof (induction ds arbitrary: names embs full out)
  case Nil
  show ?case by simp
next
  case (Cons d ds)
  then have d: "is_obj d" and ds: "list_all is_obj ds" by simp_all
  show ?case
    by (simp add: do_record_obj [OF d] Cons.IH [OF ds])
qed

lemma fetch_loop_lockstep:
  "fetch_loop env ds names embs full out = (Inr (names', embs', full'), out') \<Longrightarrow>
   length names = length embs \<Longrightarrow> length full = length embs \<Longrightarrow>
   length names' = length embs' \<and> length full' = length embs'"
proof (induction ds arbitrary: names embs full out)
  case Nil
  then show ?case by simp
next
  case (Cons d ds)
  show ?case
  proof (cases "do_record env d")
    case (Inl e)
    with Cons.prems show ?thesis by simp
  next
    case (Inr s)
    show ?thesis
    proof (cases s)
      case (Admit nm emb)
      with Inr Cons.prems
      have "fetch_loop env ds (names @ [nm]) (embs @ [emb]) (full @ [d]) out = (Inr (names', embs', full'), out')"
        by simp
      then show ?thesis by (rule Cons.IH) (simp_all add: Cons.prems)
    next
      case (Warn m)
      with Inr Cons.prems
      have "fetch_loop env ds names embs full (out @ [m]) = (Inr (names', embs', full'), out')"
        by simp
      then show ?thesis by (rule Cons.IH) (simp_all add: Cons.prems)
    qed
  qed
qed

lemma do_record_Warn_is_warning: "do_record env d = Inr (Warn m) \<Longrightarrow> is_warning m"
  by (auto simp: do_record_def try_record_def is_warning_def split: sum.splits if_splits)

lemma fetch_loop_warnings:
  "fetch_loop env ds names embs full out = (r, out') \<Longrightarrow>
   \<exists>ws. out' = out @ ws \<and> list_all is_warning ws"
proof (induction ds arbitrary: names embs full out)
  case Nil
  then show ?case by simp
next
  case (Cons d ds)
  show ?case
  proof (cases "do_record env d")
    case (Inl e)
    with Cons.prems show ?thesis by simp
  next
    case (Inr s)
    show ?thesis
    proof (cases s)
      case (Admit nm emb)
      with Inr Cons.prems
      have "fetch_loop env ds (names @ [nm]) (embs @ [emb]) (full @ [d]) out = (r, out')"
        by simp
      then show ?thesis by (rule Cons.IH)
    next
      case (Warn m)
      with Inr have w: "is_warning m" by (simp add: do_record_Warn_is_warning)
      from Warn Inr Cons.prems
      have "fetch_loop env ds names embs full (out @ [m]) = (r, out')"
        by simp
      then obtain ws where "out' = (out @ [m]) @ ws" "list_all is_warning ws"
        using Cons.IH by blast
      with w have "out' = out @ (m # ws) \<and> list_all is_warning (m # ws)" by simp
      then show ?thesis by blast
    qed
  qed
qed

lemma fetch_registered_lockstep:
  assumes "fetch_registered env w = (((names, embs, full), out), w')"
  shows "length names = length embs \<and> length full = length embs"
proof -
  obtain resp w1 where g: "http_get env w = (resp, w1)" by (cases "http_get env w")
  show ?thesis
  proof (cases resp)
    case (Inl e)
    with g assms show ?thesis by (auto simp: fetch_registered_def)
  next
    case (Inr data)
    show ?thesis
    proof (cases "iterate data")
      case (Inl e)
      with g Inr assms show ?thesis by (auto simp: fetch_registered_def)
    next
      case ds: (Inr ds)
      obtain r out1 where l: "fetch_loop env ds [] [] [] [] = (r, out1)"
        by (cases "fetch_loop env ds [] [] [] []")
      show ?thesis
      proof (cases r)
        case (Inl e)
        with g Inr ds l assms show ?thesis by (auto simp: fetch_registered_def)
      next
        case res: (Inr t)
        with g Inr ds l assms have "t = (names, embs, full)"
          by (auto simp: fetch_registered_def)
        with l res have "fetch_loop env ds [] [] [] [] = (Inr (names, embs, full), out1)" by simp
        from fetch_loop_lockstep [OF this] show ?thesis by simp
      qed
    qed
  qed
qed

lemma fetch_registered_error:
  assumes "fetch_registered env w = (((names, embs, full), out), w')"
    and "Error_fetch_failed x \<in> set out"
  shows "names = [] \<and> embs = [] \<and> full = [] \<and>
         (\<exists>ws. out = ws @ [Error_fetch_failed x] \<and> list_all is_warning ws)"
proof -
  obtain resp w1 where g: "http_get env w = (resp, w1)" by (cases "http_get env w")
  show ?thesis
  proof (cases resp)
    case (Inl e)
    with g assms show ?thesis by (auto simp: fetch_registered_def)
  next
    case (Inr data)
    show ?thesis
    proof (cases "iterate data")
      case (Inl e)
      with g Inr assms show ?thesis by (auto simp: fetch_registered_def)
    next
      case ds: (Inr ds)
      obtain r out1 where l: "fetch_loop env ds [] [] [] [] = (r, out1)"
        by (cases "fetch_loop env ds [] [] [] []")
      from fetch_loop_warnings [OF l] have w1: "list_all is_warning out1" by auto
      then have nowarn: "Error_fetch_failed x \<notin> set out1"
        by (auto simp: list_all_iff is_warning_def)
      show ?thesis
      proof (cases r)
        case (Inl e)
        with g Inr ds l assms have o: "out = out1 @ [Error_fetch_failed e]"
          and z: "names = [] \<and> embs = [] \<and> full = []"
          by (auto simp: fetch_registered_def)
        with assms(2) nowarn have "e = x" by auto
        with o z w1 show ?thesis by blast
      next
        case res: (Inr t)
        with g Inr ds l assms have "out = out1" by (auto simp: fetch_registered_def)
        with assms(2) nowarn show ?thesis by simp
      qed
    qed
  qed
qed

lemma fetch_registered_objs:
  assumes "http_get env w = (Inr (JArr ds), w')" and "list_all is_obj ds"
  shows "fetch_registered env w =
          (((map name_of (filter (admitted env) ds),
             map (emb_of env) (filter (admitted env) ds),
             filter (admitted env) ds),
            map (warning_for env) (filter (\<lambda>d. \<not> admitted env d) ds)), w')"
  using assms by (simp add: fetch_registered_def iterate_def fetch_loop_objs)

subsection \<open>The example library\<close>

lemma dot_Nil [simp]: "dot [] y = 0" "dot x [] = 0"
  by (simp_all add: dot_def)

lemma dot_Cons [simp]: "dot (a # x) (b # y) = a * b + dot x y"
  by (simp add: dot_def)

lemma dot_zero_left: "\<forall>a\<in>set x. a = 0 \<Longrightarrow> dot x y = 0"
proof (induction x arbitrary: y)
  case Nil
  show ?case by simp
next
  case (Cons a x)
  then show ?case by (cases y) simp_all
qed

lemma dot_zero_right: "\<forall>a\<in>set y. a = 0 \<Longrightarrow> dot x y = 0"
proof (induction x arbitrary: y)
  case Nil
  show ?case by simp
next
  case (Cons a x)
  then show ?case by (cases y) simp_all
qed

lemma dot_unit_emb:
  "dot unit_emb unit_emb = 1" "dot unit_emb second_emb = 0" "dot second_emb unit_emb = 0"
  "dot zero_emb y = 0"
  by (simp_all add: unit_emb_def second_emb_def zero_emb_def dot_zero_left dot_zero_right)

lemma cosine_entry_lib01: "cosine_entry lib01 known q k = dot (known ! k) q"
  by (simp add: lib01_def)

lemma one_minus_default: "one_minus lib01 default_threshold < 1" "0 \<le> one_minus lib01 default_threshold"
  by (simp_all add: lib01_def default_threshold_def)

subsection \<open>The Matcher\<close>

text \<open>
  C3. On an empty known list \<open>find_match\<close> returns no match, without an error. On a
  non-empty known list (of rows of the query's dimension) it selects the first index
  at which the cosine similarity that the library returns is maximal, and returns that
  index if and only if the similarity there is strictly greater than \<open>1 - threshold\<close>, as
  the float subtraction gives it; otherwise it returns no match. This holds whatever
  the library's rounding is.
\<close>

theorem find_match_first_maximum_above_threshold:
  "find_match lib [] q t = Inr None \<and>
   (known \<noteq> [] \<and> shapes_ok known q \<longrightarrow>
      (\<exists>i. first_max_index (sims_of lib known q) i \<and>
           find_match lib known q t =
             Inr (if one_minus lib t < sims_of lib known q ! i then Some i else None)))"
proof
  show "find_match lib [] q t = Inr None" by (simp add: find_match_def)
next
  show "known \<noteq> [] \<and> shapes_ok known q \<longrightarrow>
      (\<exists>i. first_max_index (sims_of lib known q) i \<and>
           find_match lib known q t =
             Inr (if one_minus lib t < sims_of lib known q ! i then Some i else None))"
    using find_match_cases [of known q lib t] by blast
qed

theorem find_match_first_maximum_above_threshold_witness:
  "[[1, 0], [0, 1], [0, 1]] \<noteq> ([] :: embedding list) \<and> shapes_ok [[1, 0], [0, 1], [0, 1]] [0, 1] \<and>
   sims_of lib01 [[1, 0], [0, 1], [0, 1]] [0, 1] = [0, 1, 1] \<and>
   first_max_index (sims_of lib01 [[1, 0], [0, 1], [0, 1]] [0, 1]) 1 \<and>
   find_match lib01 [[1, 0], [0, 1], [0, 1]] [0, 1] default_threshold = Inr (Some 1)"
proof -
  let ?K = "[[1, 0], [0, 1], [0, 1]] :: embedding list"
  let ?q = "[0, 1] :: embedding"
  have s: "sims_of lib01 ?K ?q = [0, 1, 1]"
    by (simp add: sims_of_def cosine_entry_lib01 upt_rec [of 0])
  have ok: "?K \<noteq> [] \<and> shapes_ok ?K ?q"
    by (simp add: shapes_ok_def)
  have f: "first_max_index (sims_of lib01 ?K ?q) 1"
    unfolding s by (simp add: first_max_index_def less_Suc_eq numeral_3_eq_3)
  from find_match_first_maximum_above_threshold [of lib01 ?q default_threshold ?K] ok
  obtain i where i: "first_max_index (sims_of lib01 ?K ?q) i"
    "find_match lib01 ?K ?q default_threshold =
       Inr (if one_minus lib01 default_threshold < sims_of lib01 ?K ?q ! i then Some i else None)"
    by blast
  from i(1) f have "i = 1" by (rule first_max_index_unique)
  with i(2) s one_minus_default(1) have "find_match lib01 ?K ?q default_threshold = Inr (Some 1)" by simp
  with ok s f show ?thesis by blast
qed

subsection \<open>The example codec and handler facts\<close>

lemma split_commas_plain: "CHR '','' \<notin> set s \<Longrightarrow> split_commas s = [s]"
  by (induction s) auto

lemma split_commas_append:
  "CHR '','' \<notin> set s \<Longrightarrow> split_commas (s @ CHR '','' # rest) = s # split_commas rest"
  by (induction s) auto

lemma split_commas_join:
  "ts \<noteq> [] \<Longrightarrow> list_all (\<lambda>t. CHR '','' \<notin> set t) ts \<Longrightarrow> split_commas (join '','' ts) = ts"
proof (induction ts)
  case Nil
  then show ?case by simp
next
  case (Cons t ts)
  show ?case
  proof (cases ts)
    case Nil
    with Cons.prems show ?thesis by (simp add: split_commas_plain)
  next
    case (Cons u us)
    with Cons.IH Cons.prems have "split_commas (join '','' (u # us)) = u # us" by simp
    with Cons Cons.prems show ?thesis by (simp add: split_commas_append)
  qed
qed

lemma fromstring01_roundtrip:
  assumes "e \<noteq> []" "list_all (\<lambda>x. x = 0 \<or> x = 1) e"
  shows "fromstring01 (JStr (join '','' (map str01 e))) = Inr e"
proof -
  have "list_all (\<lambda>t. CHR '','' \<notin> set t) (map str01 e)"
    by (induction e) (simp_all add: str01_def)
  with assms(1) have s: "split_commas (join '','' (map str01 e)) = map str01 e"
    by (simp add: split_commas_join)
  have n: "map number01 (map str01 e) = map Some e"
    using assms(2) by (induction e) (auto simp: number01_def str01_def)
  have "list_all (\<lambda>n. n \<noteq> None) (map Some e)" by (simp add: list_all_iff)
  moreover have "map the (map Some e) = e" by (simp add: comp_def)
  ultimately show ?thesis by (simp only: fromstring01_def s n json.case Let_def if_True)
qed

lemma fromstring01_123: "fromstring01 (JStr ''1,2,3'') = Inr [1, 2, 3]"
  by (simp add: fromstring01_def number01_def)

lemma reload_shape:
  "\<exists>names embs full out w'.
     fetch_registered env (world b) = (((names, embs, full), out), w') \<and>
     reload env b = b\<lparr>names_known := names, embs_known := embs, full_data := full,
                       shown := shown b @ out, world := w'\<rparr>"
proof -
  obtain names embs full out w' where "fetch_registered env (world b) = (((names, embs, full), out), w')"
    by (metis prod.exhaust)
  then show ?thesis by (simp add: reload_def)
qed


lemma reload_logged_in: "logged_in (reload env b) = logged_in b"
  using reload_shape [of env b] by auto


lemma reload_lockstep: "lockstep (reload env b)"
proof -
  from reload_shape [of env b] obtain names embs full out w' where
    f: "fetch_registered env (world b) = (((names, embs, full), out), w')" and
    r: "reload env b = b\<lparr>names_known := names, embs_known := embs, full_data := full,
                       shown := shown b @ out, world := w'\<rparr>"
    by blast
  from fetch_registered_lockstep [OF f] r show ?thesis by (simp add: lockstep_def)
qed


lemma post_student_shown:
  "shown (post_student env row a) =
     shown a @ (case fst (http_post env row (world a)) of None \<Rightarrow> [] | Some e \<Rightarrow> [Error_upload_failed e])"
  by (simp add: post_student_def split: prod.splits option.splits)

lemma post_student_world: "world (post_student env row a) = snd (http_post env row (world a))"
  by (simp add: post_student_def split: prod.splits option.splits)

lemma unit_emb_facts: "length unit_emb = 128" "\<exists>a\<in>set unit_emb. a \<noteq> 0" "unit_emb \<noteq> []"
  by (simp_all add: unit_emb_def)

lemma strip_examples: "strip ''  '' = []" "strip '' Ann '' = ''Ann''" "strip ''S1'' = ''S1''"
  by (simp_all add: strip_def isspace_def)

lemma second_emb_facts: "length second_emb = 128" "\<exists>a\<in>set second_emb. a \<noteq> 0" "second_emb \<noteq> []"
  by (simp_all add: second_emb_def)

lemma zero_emb_facts: "length zero_emb = 128" "\<forall>a\<in>set zero_emb. a = 0" "zero_emb \<noteq> []"
  by (simp_all add: zero_emb_def)

lemma find_match_unit_unit:
  "find_match lib01 [unit_emb] unit_emb default_threshold = Inr (Some 0)"
  using one_minus_default
  by (simp add: find_match_def shapes_ok_def sims_of_def argmax_def unit_emb_facts
      cosine_entry_lib01 dot_unit_emb)

lemma find_match_unit_second:
  "find_match lib01 [unit_emb] second_emb default_threshold = Inr None"
  using one_minus_default
  by (simp add: find_match_def shapes_ok_def sims_of_def argmax_def unit_emb_facts
      second_emb_facts cosine_entry_lib01 dot_unit_emb)

subsection \<open>Registration\<close>

text \<open>
  C5. When the Register button is pressed without a face embedding, or with a name or a
  student id that is empty after \<open>strip()\<close>, the handler only shows the validation
  error: nothing is passed to \<open>requests.post\<close>, no row is built, and the store and
  the KnownSet are as before.
\<close>

theorem register_invalid_input_posts_nothing:
  assumes "emb = None \<or> strip name = [] \<or> strip sid = []"
  shows "\<exists>a'. register_click lib env emb name sid a = Inr a' \<and>
              a' = a\<lparr>shown := shown a @ [if emb = None then Error_no_face else Error_missing_fields]\<rparr> \<and>
              posts a' = posts a \<and> world a' = world a"
  using assms by (cases emb) (auto simp: register_click_def display_def)

theorem register_invalid_input_posts_nothing_witness:
  "(Some unit_emb = None \<or> strip ''  '' = [] \<or> strip ''S1'' = []) \<and>
   register_click lib01 (sheet_env fromstring01 str01 ''2024-05-01T09:00:00'') (Some unit_emb) ''  '' ''S1'' app0
     = Inr (app0\<lparr>shown := [Error_missing_fields]\<rparr>) \<and>
   register_click lib01 (sheet_env fromstring01 str01 ''2024-05-01T09:00:00'') None ''Ann'' ''S1'' app0
     = Inr (app0\<lparr>shown := [Error_no_face]\<rparr>)"
  using register_invalid_input_posts_nothing
          [of "Some unit_emb" "''  ''" "''S1''" lib01 "sheet_env fromstring01 str01 ''2024-05-01T09:00:00''" app0]
        register_invalid_input_posts_nothing
          [of None "''Ann''" "''S1''" lib01 "sheet_env fromstring01 str01 ''2024-05-01T09:00:00''" app0]
  by (simp add: strip_examples app0_def)



subsection \<open>Login\<close>

text \<open>
  C7. Login with an embedding: on an empty KnownSet the handler shows "No students
  registered", which is not the message of a rejection; on a non-empty KnownSet a match
  at index \<open>i\<close> welcomes \<open>names_known[i]\<close> and records it as the logged-in identity, and
  no match shows "Face not recognised".
\<close>

theorem login_empty_registry_distinct_from_rejected:
  "(embs_known a = [] \<longrightarrow>
      login_click lib env (Some e) a = Inr (a\<lparr>shown := shown a @ [Error_no_students]\<rparr>)) \<and>
   (embs_known a \<noteq> [] \<and> length (names_known a) = length (embs_known a) \<and>
    find_match lib (embs_known a) e default_threshold = Inr (Some i) \<longrightarrow>
      login_click lib env (Some e) a =
        Inr (a\<lparr>shown := shown a @ [Success_welcome (names_known a ! i)],
               logged_in := Some (names_known a ! i)\<rparr>)) \<and>
   (embs_known a \<noteq> [] \<and> find_match lib (embs_known a) e default_threshold = Inr None \<longrightarrow>
      login_click lib env (Some e) a = Inr (a\<lparr>shown := shown a @ [Error_not_recognised]\<rparr>)) \<and>
   Error_no_students \<noteq> Error_not_recognised"
proof (intro conjI impI)
  show "embs_known a = [] \<Longrightarrow>
      login_click lib env (Some e) a = Inr (a\<lparr>shown := shown a @ [Error_no_students]\<rparr>)"
    by (simp add: login_click_def display_def)
next
  assume h: "embs_known a \<noteq> [] \<and> length (names_known a) = length (embs_known a) \<and>
    find_match lib (embs_known a) e default_threshold = Inr (Some i)"
  then have "i < length (names_known a)" using find_match_bound [of lib "embs_known a" e default_threshold i] by simp
  with h show "login_click lib env (Some e) a =
        Inr (a\<lparr>shown := shown a @ [Success_welcome (names_known a ! i)],
               logged_in := Some (names_known a ! i)\<rparr>)"
    by (simp add: login_click_def display_def index_def)
next
  show "embs_known a \<noteq> [] \<and> find_match lib (embs_known a) e default_threshold = Inr None \<Longrightarrow>
      login_click lib env (Some e) a = Inr (a\<lparr>shown := shown a @ [Error_not_recognised]\<rparr>)"
    by (simp add: login_click_def display_def)
next
  show "Error_no_students \<noteq> Error_not_recognised" by simp
qed

theorem login_empty_registry_distinct_from_rejected_witness:
  "embs_known app0 = [] \<and>
   login_click lib01 (sheet_env fromstring01 str01 ''2024-05-02T10:30:00'') (Some unit_emb) app0
     = Inr (app0\<lparr>shown := [Error_no_students]\<rparr>) \<and>
   embs_known app_ann \<noteq> [] \<and> length (names_known app_ann) = length (embs_known app_ann) \<and>
   find_match lib01 (embs_known app_ann) unit_emb default_threshold = Inr (Some 0) \<and>
   login_click lib01 (sheet_env fromstring01 str01 ''2024-05-02T10:30:00'') (Some unit_emb) app_ann
     = Inr (app_ann\<lparr>shown := [Success_welcome (JStr ''Ann'')], logged_in := Some (JStr ''Ann'')\<rparr>) \<and>
   find_match lib01 (embs_known app_ann) second_emb default_threshold = Inr None \<and>
   login_click lib01 (sheet_env fromstring01 str01 ''2024-05-02T10:30:00'') (Some second_emb) app_ann
     = Inr (app_ann\<lparr>shown := [Error_not_recognised]\<rparr>)"
proof -
  let ?env = "sheet_env fromstring01 str01 ''2024-05-02T10:30:00''"
  have m: "find_match lib01 (embs_known app_ann) unit_emb default_threshold = Inr (Some 0)"
    using find_match_unit_unit by (simp add: app_ann_def)
  have n: "find_match lib01 (embs_known app_ann) second_emb default_threshold = Inr None"
    using find_match_unit_second by (simp add: app_ann_def)
  have k: "embs_known app_ann \<noteq> []" "length (names_known app_ann) = length (embs_known app_ann)"
    by (simp_all add: app_ann_def)
  have 0: "embs_known app0 = []" by (simp add: app0_def)
  from login_empty_registry_distinct_from_rejected [of app0 lib01 ?env unit_emb 0] 0
  have 1: "login_click lib01 ?env (Some unit_emb) app0 = Inr (app0\<lparr>shown := [Error_no_students]\<rparr>)"
    by (simp add: app0_def)
  from login_empty_registry_distinct_from_rejected [of app_ann lib01 ?env unit_emb 0] k m
  have 2: "login_click lib01 ?env (Some unit_emb) app_ann
     = Inr (app_ann\<lparr>shown := [Success_welcome (JStr ''Ann'')], logged_in := Some (JStr ''Ann'')\<rparr>)"
    by (simp add: app_ann_def)
  from login_empty_registry_distinct_from_rejected [of app_ann lib01 ?env second_emb 0] k n
  have 3: "login_click lib01 ?env (Some second_emb) app_ann = Inr (app_ann\<lparr>shown := [Error_not_recognised]\<rparr>)"
    by (simp add: app_ann_def)
  from 0 1 k m 2 n 3 show ?thesis by blast
qed

subsection \<open>Facts about the example data\<close>

lemma roundtrip_examples:
  "fromstring01 (JStr (join '','' (map str01 unit_emb))) = Inr unit_emb"
  "fromstring01 (JStr (join '','' (map str01 second_emb))) = Inr second_emb"
  "fromstring01 (JStr (join '','' (map str01 zero_emb))) = Inr zero_emb"
  by (rule fromstring01_roundtrip; simp add: unit_emb_def second_emb_def zero_emb_def list_all_iff)+

lemma admitted_row_ann: "admitted (sheet_env fromstring01 str01 c) row_ann"
  by (simp add: admitted_def parses_to_128_def has_name_def row_ann_def subscript_def sheet_env_def
      roundtrip_examples unit_emb_facts)

lemma emb_of_row_ann: "emb_of (sheet_env fromstring01 str01 c) row_ann = unit_emb"
  by (simp add: emb_of_def row_ann_def subscript_def sheet_env_def
      roundtrip_examples unit_emb_facts)

lemma name_of_row_ann: "name_of row_ann = JStr ''Ann''"
  by (simp add: name_of_def row_ann_def subscript_def)

lemma not_admitted_row_bob: "\<not> admitted (sheet_env fromstring01 str01 c) row_bob"
  by (simp add: admitted_def parses_to_128_def row_bob_def subscript_def sheet_env_def
      fromstring01_123)

lemma warning_for_row_bob:
  "warning_for (sheet_env fromstring01 str01 c) row_bob = Warning_skipped_corrupted (JStr ''Bob'')"
  by (simp add: warning_for_def parses_def has_name_def name_of_def row_bob_def subscript_def
      sheet_env_def fromstring01_123)

lemma is_obj_rows: "is_obj row_ann" "is_obj row_bob"
  by (simp_all add: is_obj_def row_ann_def row_bob_def)

lemma fetch_bob_ann:
  "fetch_registered (sheet_env fromstring01 str01 c) [row_bob, row_ann] =
     ((([JStr ''Ann''], [unit_emb], [row_ann]), [Warning_skipped_corrupted (JStr ''Bob'')]),
      [row_bob, row_ann])"
proof -
  have g: "http_get (sheet_env fromstring01 str01 c) [row_bob, row_ann]
             = (Inr (JArr [row_bob, row_ann]), [row_bob, row_ann])"
    by (simp add: sheet_env_def sheet_get_def)
  have o: "list_all is_obj [row_bob, row_ann]" by (simp add: is_obj_rows)
  show ?thesis
    by (simp add: fetch_registered_objs [OF g o] admitted_row_ann not_admitted_row_bob
        emb_of_row_ann name_of_row_ann warning_for_row_bob)
qed

subsection \<open>Fetching the KnownSet\<close>

text \<open>
  C8. When the store returns a list of JSON objects, every record whose \<open>encoding\<close>
  does not parse into exactly 128 components (the field is missing, \<open>np.fromstring\<close>
  raises, or the size is not 128) is left out of the KnownSet and gets one warning, and
  the loop goes on: the KnownSet holds exactly the admitted records, in order, with one
  warning for each of the others and no error.
\<close>

theorem bad_records_dropped_with_warning:
  assumes "http_get env w = (Inr (JArr ds), w')" and "list_all is_obj ds"
  shows "\<exists>names embs full ws.
           fetch_registered env w = (((names, embs, full), ws), w') \<and>
           full = filter (admitted env) ds \<and>
           names = map name_of full \<and> embs = map (emb_of env) full \<and>
           ws = map (warning_for env) (filter (\<lambda>d. \<not> admitted env d) ds) \<and>
           list_all is_warning ws \<and> length ws + length full = length ds \<and>
           (\<forall>d\<in>set ds. \<not> parses_to_128 env d \<longrightarrow> d \<notin> set full \<and> warning_for env d \<in> set ws)"
proof -
  let ?full = "filter (admitted env) ds"
  let ?ws = "map (warning_for env) (filter (\<lambda>d. \<not> admitted env d) ds)"
  have "fetch_registered env w = (((map name_of ?full, map (emb_of env) ?full, ?full), ?ws), w')"
    using assms by (rule fetch_registered_objs)
  moreover have "list_all is_warning ?ws"
    by (simp add: list_all_iff warning_for_is_warning)
  moreover have "length ?ws + length ?full = length ds"
    using sum_length_filter_compl [of "admitted env" ds] by simp
  moreover have "\<forall>d\<in>set ds. \<not> parses_to_128 env d \<longrightarrow> d \<notin> set ?full \<and> warning_for env d \<in> set ?ws"
    by (auto simp: admitted_def)
  ultimately show ?thesis by blast
qed

theorem bad_records_dropped_with_warning_witness:
  "http_get (sheet_env fromstring01 str01 ''2024-05-02T10:30:00'') [row_bob, row_ann]
     = (Inr (JArr [row_bob, row_ann]), [row_bob, row_ann]) \<and>
   list_all is_obj [row_bob, row_ann] \<and>
   \<not> parses_to_128 (sheet_env fromstring01 str01 ''2024-05-02T10:30:00'') row_bob \<and>
   fetch_registered (sheet_env fromstring01 str01 ''2024-05-02T10:30:00'') [row_bob, row_ann] =
     ((([JStr ''Ann''], [unit_emb], [row_ann]), [Warning_skipped_corrupted (JStr ''Bob'')]),
      [row_bob, row_ann])"
proof -
  let ?env = "sheet_env fromstring01 str01 ''2024-05-02T10:30:00''"
  have g: "http_get ?env [row_bob, row_ann] = (Inr (JArr [row_bob, row_ann]), [row_bob, row_ann])"
    by (simp add: sheet_env_def sheet_get_def)
  have o: "list_all is_obj [row_bob, row_ann]" by (simp add: is_obj_rows)
  have b: "\<not> parses_to_128 ?env row_bob"
    by (simp add: parses_to_128_def row_bob_def subscript_def sheet_env_def fromstring01_123)
  from bad_records_dropped_with_warning [OF g o]
  have "fetch_registered ?env [row_bob, row_ann] =
     ((([JStr ''Ann''], [unit_emb], [row_ann]), [Warning_skipped_corrupted (JStr ''Bob'')]),
      [row_bob, row_ann])"
    by (simp add: admitted_row_ann not_admitted_row_bob emb_of_row_ann name_of_row_ann
        warning_for_row_bob)
  with g o b show ?thesis by blast
qed

subsection \<open>The handlers keep the lists in lockstep\<close>

lemma register_click_lockstep:
  assumes "lockstep a" and "register_click lib env emb name sid a = Inr a'"
  shows "lockstep a'"
proof -
  have d: "\<And>m. lockstep (display m a)" using assms(1) by (simp add: lockstep_def display_def)
  from assms(2) show ?thesis
    by (auto simp: register_click_def d reload_lockstep
        split: option.splits if_splits sum.splits)
qed

lemma login_click_lockstep:
  assumes "lockstep a" and "login_click lib env emb a = Inr a'"
  shows "lockstep a'"
proof -
  have d: "\<And>m. lockstep (display m a)" using assms(1) by (simp add: lockstep_def display_def)
  have e: "\<And>m x. lockstep ((display m a)\<lparr>logged_in := x\<rparr>)"
    using assms(1) by (simp add: lockstep_def display_def)
  from assms show ?thesis
    by (auto simp: login_click_def d e split: option.splits if_splits sum.splits)
qed

lemma find_match_raises:
  assumes "find_match lib known q t = Inl x"
  shows "x = ValueError"
proof (cases "known \<noteq> [] \<and> shapes_ok known q")
  case True
  with find_match_cases [of known q lib t] assms show ?thesis by auto
next
  case False
  with assms show ?thesis by (auto simp: find_match_def split: if_splits)
qed

lemma register_click_no_IndexError:
  assumes "lockstep a"
  shows "register_click lib env emb name sid a \<noteq> Inl IndexError"
proof
  assume r: "register_click lib env emb name sid a = Inl IndexError"
  then obtain e where e: "emb = Some e" and v: "\<not> (strip name = [] \<or> strip sid = [])"
    by (auto simp: register_click_def split: option.splits if_splits)
  show False
  proof (cases "find_match lib (embs_known a) e default_threshold")
    case (Inl x)
    with find_match_raises [OF Inl] r e v show False by (simp add: register_click_def)
  next
    case (Inr m)
    show False
    proof (cases m)
      case None
      with Inr r e v show False by (simp add: register_click_def)
    next
      case (Some i)
      with Inr have "i < length (embs_known a)" using find_match_bound by blast
      with assms have "index (names_known a) i = Inr (names_known a ! i)"
        by (simp add: index_def lockstep_def)
      with Some Inr r e v show False by (simp add: register_click_def)
    qed
  qed
qed

lemma login_click_no_IndexError:
  assumes "lockstep a"
  shows "login_click lib env emb a \<noteq> Inl IndexError"
proof
  assume r: "login_click lib env emb a = Inl IndexError"
  then obtain e where e: "emb = Some e" and v: "embs_known a \<noteq> []"
    by (auto simp: login_click_def split: option.splits if_splits)
  show False
  proof (cases "find_match lib (embs_known a) e default_threshold")
    case (Inl x)
    with find_match_raises [OF Inl] r e v show False by (simp add: login_click_def)
  next
    case (Inr m)
    show False
    proof (cases m)
      case None
      with Inr r e v show False by (simp add: login_click_def)
    next
      case (Some i)
      with Inr have "i < length (embs_known a)" using find_match_bound by blast
      with assms have "index (names_known a) i = Inr (names_known a ! i)"
        by (simp add: index_def lockstep_def)
      with Some Inr r e v show False by (simp add: login_click_def)
    qed
  qed
qed

subsection \<open>Index safety\<close>

text \<open>
  C10. An index returned by \<open>find_match\<close> is below the length of the known list;
  \<open>fetch_registered\<close> returns names, embeddings and records of one length, so that
  \<open>names[i]\<close> is defined for a returned index; every reload leaves the script's lists
  in lockstep, and from lists in lockstep neither handler raises \<open>IndexError\<close> and
  both leave the lists in lockstep.
\<close>

theorem name_lookups_in_bounds:
  "(find_match lib known q t = Inr (Some i) \<longrightarrow> i < length known) \<and>
   (fetch_registered env w = (((names, embs, full), out), w') \<longrightarrow>
      length names = length embs \<and> length full = length embs \<and>
      (find_match lib embs q t = Inr (Some i) \<longrightarrow> index names i = Inr (names ! i))) \<and>
   lockstep (reload env a) \<and>
   (lockstep a \<longrightarrow>
      register_click lib env emb name sid a \<noteq> Inl IndexError \<and>
      login_click lib env emb a \<noteq> Inl IndexError \<and>
      (\<forall>a'. register_click lib env emb name sid a = Inr a' \<or> login_click lib env emb a = Inr a'
            \<longrightarrow> lockstep a'))"
proof (intro conjI impI allI)
  show "find_match lib known q t = Inr (Some i) \<Longrightarrow> i < length known"
    by (rule find_match_bound)
next
  assume f: "fetch_registered env w = (((names, embs, full), out), w')"
  from fetch_registered_lockstep [OF f]
  show "length names = length embs" and "length full = length embs" by simp_all
next
  assume f: "fetch_registered env w = (((names, embs, full), out), w')"
    and m: "find_match lib embs q t = Inr (Some i)"
  from fetch_registered_lockstep [OF f] find_match_bound [OF m]
  show "index names i = Inr (names ! i)" by (simp add: index_def)
next
  show "lockstep (reload env a)" by (rule reload_lockstep)
next
  show "lockstep a \<Longrightarrow> register_click lib env emb name sid a \<noteq> Inl IndexError"
    by (rule register_click_no_IndexError)
next
  show "lockstep a \<Longrightarrow> login_click lib env emb a \<noteq> Inl IndexError"
    by (rule login_click_no_IndexError)
next
  fix a'
  assume "lockstep a"
    and "register_click lib env emb name sid a = Inr a' \<or> login_click lib env emb a = Inr a'"
  then show "lockstep a'"
    using register_click_lockstep login_click_lockstep by blast
qed

theorem name_lookups_in_bounds_witness:
  "find_match lib01 [unit_emb] unit_emb default_threshold = Inr (Some 0) \<and> (0::nat) < length [unit_emb] \<and>
   fetch_registered (sheet_env fromstring01 str01 ''2024-05-02T10:30:00'') [row_bob, row_ann] =
     ((([JStr ''Ann''], [unit_emb], [row_ann]), [Warning_skipped_corrupted (JStr ''Bob'')]),
      [row_bob, row_ann]) \<and>
   index [JStr ''Ann''] 0 = Inr (JStr ''Ann'') \<and>
   lockstep app_ann \<and>
   register_click lib01 (sheet_env fromstring01 str01 ''2024-05-02T10:30:00'') (Some unit_emb) ''Zed'' ''S9'' app_ann
     \<noteq> Inl IndexError \<and>
   login_click lib01 (sheet_env fromstring01 str01 ''2024-05-02T10:30:00'') (Some unit_emb) app_ann
     \<noteq> Inl IndexError"
proof -
  let ?env = "sheet_env fromstring01 str01 ''2024-05-02T10:30:00''"
  have l: "lockstep app_ann" by (simp add: lockstep_def app_ann_def)
  note t = name_lookups_in_bounds [of lib01 "[unit_emb]" unit_emb default_threshold 0 ?env "[row_bob, row_ann]"
      "[JStr ''Ann'']" "[unit_emb]" "[row_ann]" "[Warning_skipped_corrupted (JStr ''Bob'')]"
      "[row_bob, row_ann]" app_ann "Some unit_emb" "''Zed''" "''S9''"]
  from t l find_match_unit_unit fetch_bob_ann [of "''2024-05-02T10:30:00''"]
  show ?thesis by simp
qed

subsection \<open>Store failures\<close>

text \<open>
  C1. A registration whose append fails: a face not yet known, name "Ann", id "S1",
  and a store that answers the POST with status 500. \<open>post_student\<close> shows
  "Upload failed" with the cause and makes no second attempt (one row was passed to
  \<open>requests.post\<close>, the sheet is still empty), but the handler goes on and shows
  "Registered successfully": the outcome displayed is Registered.
\<close>

theorem failed_upload_still_registered:
  "register_click lib01 (flaky_env None (Some (HTTPError ''500 Server Error'')) fromstring01 str01 ''2024-05-02T10:30:00'')
     (Some unit_emb) ''Ann'' ''S1'' app0 =
   Inr (app0\<lparr>shown := [Error_upload_failed (HTTPError ''500 Server Error''), Success_registered],
             posts := [JObj [(''timestamp'', JStr ''2024-05-02T10:30:00''), (''student_id'', JStr ''S1''),
                             (''name'', JStr ''Ann''),
                             (''encoding'', JStr (join '','' (map str01 unit_emb)))]]\<rparr>)"
  by (simp add: register_click_def find_match_def app0_def flaky_env_def post_student_def
      display_def reload_def fetch_registered_def sheet_get_def iterate_def new_row_def
      strip_examples strip_def isspace_def)

text \<open>
  C2, as amended. When the fetch of a KnownSet refresh fails, the previous KnownSet is
  not kept: the three lists become empty. If the request itself raises, the error is
  the only message; whenever the refresh shows a fetch error (also for a body of the
  wrong shape), it shows exactly one, after the warnings of the records already
  processed, and the lists are empty.
\<close>

theorem failed_refresh_empties_known_set:
  "(http_get env (world a) = (Inl x, w') \<longrightarrow>
      refresh_click env a =
        a\<lparr>names_known := [], embs_known := [], full_data := [],
          shown := shown a @ [Error_fetch_failed x], world := w'\<rparr>) \<and>
   (shown (refresh_click env a) = shown a @ out \<and> Error_fetch_failed x \<in> set out \<longrightarrow>
      names_known (refresh_click env a) = [] \<and> embs_known (refresh_click env a) = [] \<and>
      full_data (refresh_click env a) = [] \<and>
      (\<exists>ws. out = ws @ [Error_fetch_failed x] \<and> list_all is_warning ws))"
proof (rule conjI; rule impI)
  assume "http_get env (world a) = (Inl x, w')"
  then show "refresh_click env a =
        a\<lparr>names_known := [], embs_known := [], full_data := [],
          shown := shown a @ [Error_fetch_failed x], world := w'\<rparr>"
    by (simp add: refresh_click_def reload_def fetch_registered_def)
next
  assume h: "shown (refresh_click env a) = shown a @ out \<and> Error_fetch_failed x \<in> set out"
  from reload_shape [of env a] obtain names embs full out' w' where
    f: "fetch_registered env (world a) = (((names, embs, full), out'), w')" and
    r: "reload env a = a\<lparr>names_known := names, embs_known := embs, full_data := full,
                       shown := shown a @ out', world := w'\<rparr>"
    by blast
  from h r have "out' = out" by (simp add: refresh_click_def)
  with f h fetch_registered_error [of env "world a" names embs full out w' x]
  have "names = [] \<and> embs = [] \<and> full = [] \<and>
         (\<exists>ws. out = ws @ [Error_fetch_failed x] \<and> list_all is_warning ws)"
    by simp
  with r show "names_known (refresh_click env a) = [] \<and> embs_known (refresh_click env a) = [] \<and>
      full_data (refresh_click env a) = [] \<and>
      (\<exists>ws. out = ws @ [Error_fetch_failed x] \<and> list_all is_warning ws)"
    by (simp add: refresh_click_def)
qed

theorem failed_refresh_empties_known_set_counterexample:
  "names_known app_ann = [JStr ''Ann''] \<and> embs_known app_ann = [unit_emb] \<and>
   refresh_click (flaky_env (Some (HTTPError ''timed out'')) None fromstring01 str01 ''2024-05-02T10:30:00'') app_ann
     = app_ann\<lparr>names_known := [], embs_known := [], full_data := [],
               shown := [Error_fetch_failed (HTTPError ''timed out'')]\<rparr> \<and>
   names_known (refresh_click (flaky_env (Some (HTTPError ''timed out'')) None fromstring01 str01 ''2024-05-02T10:30:00'') app_ann)
     \<noteq> names_known app_ann"
  by (simp add: refresh_click_def reload_def fetch_registered_def flaky_env_def app_ann_def)

theorem failed_refresh_empties_known_set_witness:
  "http_get (flaky_env (Some (HTTPError ''timed out'')) None fromstring01 str01 ''2024-05-02T10:30:00'') (world app_ann)
     = (Inl (HTTPError ''timed out''), [row_ann]) \<and>
   refresh_click (flaky_env (Some (HTTPError ''timed out'')) None fromstring01 str01 ''2024-05-02T10:30:00'') app_ann
     = app_ann\<lparr>names_known := [], embs_known := [], full_data := [],
               shown := [Error_fetch_failed (HTTPError ''timed out'')]\<rparr> \<and>
   shown (refresh_click (sheet_env fromstring01 str01 ''2024-05-02T10:30:00'') (app_ann\<lparr>world := [row_bob, JNum 5]\<rparr>))
     = [Warning_skipped_corrupted (JStr ''Bob''), Error_fetch_failed AttributeError] \<and>
   names_known (refresh_click (sheet_env fromstring01 str01 ''2024-05-02T10:30:00'') (app_ann\<lparr>world := [row_bob, JNum 5]\<rparr>))
     = []"
proof -
  let ?down = "flaky_env (Some (HTTPError ''timed out'')) None fromstring01 str01 ''2024-05-02T10:30:00''"
  let ?env = "sheet_env fromstring01 str01 ''2024-05-02T10:30:00''"
  let ?a = "app_ann\<lparr>world := [row_bob, JNum 5]\<rparr>"
  have g: "http_get ?down (world app_ann) = (Inl (HTTPError ''timed out''), [row_ann])"
    by (simp add: flaky_env_def app_ann_def)
  have s: "shown (refresh_click ?env ?a)
             = shown ?a @ [Warning_skipped_corrupted (JStr ''Bob''), Error_fetch_failed AttributeError]"
    by (simp add: refresh_click_def reload_def fetch_registered_def sheet_env_def sheet_get_def
        iterate_def do_record_def try_record_def subscript_def get_or_def row_bob_def
        fromstring01_123 app_ann_def)
  from failed_refresh_empties_known_set [of ?down app_ann "HTTPError ''timed out''" "[row_ann]"] g
  have 1: "refresh_click ?down app_ann
     = app_ann\<lparr>names_known := [], embs_known := [], full_data := [],
               shown := [Error_fetch_failed (HTTPError ''timed out'')]\<rparr>"
    by (simp add: app_ann_def)
  from failed_refresh_empties_known_set [of ?env ?a AttributeError _
      "[Warning_skipped_corrupted (JStr ''Bob''), Error_fetch_failed AttributeError]"] s
  have 2: "names_known (refresh_click ?env ?a) = []" by simp
  from s have 3: "shown (refresh_click ?env ?a)
     = [Warning_skipped_corrupted (JStr ''Bob''), Error_fetch_failed AttributeError]"
    by (simp add: app_ann_def)
  from g 1 2 3 show ?thesis by blast
qed

subsection \<open>Matching an embedding that is in the known list\<close>

text \<open>
  C4, as amended. Let \<open>e\<close> be at index \<open>i\<close> of a known list whose rows have the dimension
  of \<open>e\<close>. Then \<open>find_match(known, e, threshold)\<close> returns \<open>i\<close> if and only if the
  similarity that the library computes for row \<open>i\<close> is greater than \<open>1 - threshold\<close> as
  computed, is greater than the computed similarity of every earlier row, and is not
  less than that of any row. An equal row earlier in the list, or rounding in the
  computed similarities, makes it return another index or no match.
\<close>

theorem find_match_of_member_returns_it_iff:
  assumes "i < length known" and "known ! i = e" and "shapes_ok known e"
  shows "find_match lib known e t = Inr (Some i) \<longleftrightarrow>
           one_minus lib t < sims_of lib known e ! i \<and>
           (\<forall>k<i. sims_of lib known e ! k < sims_of lib known e ! i) \<and>
           (\<forall>k<length known. sims_of lib known e ! k \<le> sims_of lib known e ! i)"
proof -
  let ?s = "sims_of lib known e"
  from assms(1) have ne: "known \<noteq> []" by auto
  from find_match_cases [OF ne assms(3), of lib t] obtain j where
    j: "first_max_index ?s j"
       "find_match lib known e t = Inr (if ?s ! j > one_minus lib t then Some j else None)"
    by blast
  show ?thesis
  proof
    assume "find_match lib known e t = Inr (Some i)"
    with j(2) have "j = i" and "one_minus lib t < ?s ! j" by (auto split: if_splits)
    with j(1) show "one_minus lib t < ?s ! i \<and> (\<forall>k<i. ?s ! k < ?s ! i) \<and>
           (\<forall>k<length known. ?s ! k \<le> ?s ! i)"
      by (simp add: first_max_index_def)
  next
    assume c: "one_minus lib t < ?s ! i \<and> (\<forall>k<i. ?s ! k < ?s ! i) \<and>
           (\<forall>k<length known. ?s ! k \<le> ?s ! i)"
    with assms(1) have "first_max_index ?s i" by (simp add: first_max_index_def)
    with j(1) have "j = i" by (rule first_max_index_unique)
    with j(2) c show "find_match lib known e t = Inr (Some i)" by simp
  qed
qed

theorem find_match_of_member_returns_it_iff_counterexample:
  "(1::nat) < length [unit_emb, unit_emb] \<and> [unit_emb, unit_emb] ! 1 = unit_emb \<and>
   (0::real) < default_threshold \<and> default_threshold \<le> 1 \<and>
   sims_of lib01 [unit_emb, unit_emb] unit_emb = [1, 1] \<and>
   find_match lib01 [unit_emb, unit_emb] unit_emb default_threshold = Inr (Some 0) \<and>
   find_match lib01 [unit_emb, unit_emb] unit_emb default_threshold \<noteq> Inr (Some 1)"
proof -
  have s: "sims_of lib01 [unit_emb, unit_emb] unit_emb = [1, 1]"
    by (simp add: sims_of_def cosine_entry_lib01 dot_unit_emb upt_rec [of 0])
  have f: "find_match lib01 [unit_emb, unit_emb] unit_emb default_threshold = Inr (Some 0)"
    using one_minus_default
    by (simp add: find_match_def shapes_ok_def s argmax_def unit_emb_facts)
  have t: "(0::real) < default_threshold" "default_threshold \<le> 1"
    by (simp_all add: default_threshold_def)
  from s f t show ?thesis by simp
qed

theorem find_match_of_member_returns_it_iff_witness:
  "(1::nat) < length [second_emb, unit_emb] \<and> [second_emb, unit_emb] ! 1 = unit_emb \<and>
   shapes_ok [second_emb, unit_emb] unit_emb \<and>
   sims_of lib01 [second_emb, unit_emb] unit_emb = [0, 1] \<and>
   one_minus lib01 default_threshold < 1 \<and>
   find_match lib01 [second_emb, unit_emb] unit_emb default_threshold = Inr (Some 1)"
proof -
  have h: "(1::nat) < length [second_emb, unit_emb]" "[second_emb, unit_emb] ! 1 = unit_emb"
    "shapes_ok [second_emb, unit_emb] unit_emb"
    by (simp_all add: shapes_ok_def unit_emb_facts second_emb_facts)
  have s: "sims_of lib01 [second_emb, unit_emb] unit_emb = [0, 1]"
    by (simp add: sims_of_def cosine_entry_lib01 dot_unit_emb upt_rec [of 0])
  from find_match_of_member_returns_it_iff [OF h, of lib01 default_threshold] s one_minus_default(1)
  have "find_match lib01 [second_emb, unit_emb] unit_emb default_threshold = Inr (Some 1)"
    by (simp add: less_Suc_eq)
  with h s one_minus_default(1) show ?thesis by simp
qed

subsection \<open>Registering the same face twice\<close>

lemma new_row_facts:
  assumes "np_fromstring env (JStr (join '','' (map (str_float env) e))) = Inr e"
    and "length e = 128"
  shows "is_obj (new_row env w name sid e)"
    and "admitted env (new_row env w name sid e)"
    and "emb_of env (new_row env w name sid e) = e"
    and "name_of (new_row env w name sid e) = JStr (strip name)"
  using assms
  by (simp_all add: new_row_def is_obj_def admitted_def parses_to_128_def has_name_def
      emb_of_def name_of_def subscript_def)

lemma admitted_emb_length: "admitted env d \<Longrightarrow> length (emb_of env d) = 128"
  by (auto simp: admitted_def parses_to_128_def emb_of_def split: sum.splits)

lemma register_on_sheet_no_match:
  fixes a :: "json list app"
  assumes "strip name \<noteq> []" and "strip sid \<noteq> []"
    and "find_match lib (embs_known a) e default_threshold = Inr None"
    and "list_all is_obj (world a)"
    and "parse (JStr (join '','' (map fmt e))) = Inr e" and "length e = 128"
  shows "register_click lib (sheet_env parse fmt clock) (Some e) name sid a =
     Inr (a\<lparr>names_known := map name_of (filter (admitted (sheet_env parse fmt clock)) (world a)) @ [JStr (strip name)],
            embs_known := reloaded_embs (sheet_env parse fmt clock) (world a) @ [e],
            full_data := filter (admitted (sheet_env parse fmt clock)) (world a)
                           @ [new_row (sheet_env parse fmt clock) (world a) name sid e],
            shown := shown a @ Success_registered #
                       map (warning_for (sheet_env parse fmt clock))
                         (filter (\<lambda>d. \<not> admitted (sheet_env parse fmt clock) d) (world a)),
            posts := posts a @ [new_row (sheet_env parse fmt clock) (world a) name sid e],
            world := world a @ [new_row (sheet_env parse fmt clock) (world a) name sid e]\<rparr>)"
proof -
  let ?env = "sheet_env parse fmt clock"
  let ?row = "new_row ?env (world a) name sid e"
  let ?b = "display Success_registered (post_student ?env ?row a)"
  have p: "np_fromstring ?env (JStr (join '','' (map (str_float ?env) e))) = Inr e"
    using assms(5) by (simp add: sheet_env_def)
  note nr = new_row_facts [OF p assms(6), of "world a" name sid]
  have b: "?b = a\<lparr>shown := shown a @ [Success_registered], posts := posts a @ [?row],
                   world := world a @ [?row]\<rparr>"
    by (simp add: display_def post_student_def sheet_env_def sheet_post_def)
  have g: "http_get ?env (world ?b) = (Inr (JArr (world a @ [?row])), world a @ [?row])"
    by (simp add: b) (simp add: sheet_env_def sheet_get_def)
  have o: "list_all is_obj (world a @ [?row])"
    using assms(4) nr(1) by simp
  have r: "register_click lib ?env (Some e) name sid a = Inr (reload ?env ?b)"
    using assms(1-3) by (simp add: register_click_def)
  have "reload ?env ?b =
     a\<lparr>names_known := map name_of (filter (admitted ?env) (world a)) @ [JStr (strip name)],
            embs_known := reloaded_embs ?env (world a) @ [e],
            full_data := filter (admitted ?env) (world a) @ [?row],
            shown := shown a @ Success_registered #
                       map (warning_for ?env) (filter (\<lambda>d. \<not> admitted ?env d) (world a)),
            posts := posts a @ [?row],
            world := world a @ [?row]\<rparr>"
    unfolding reload_def fetch_registered_objs [OF g o] reloaded_embs_def
    by (simp add: nr) (simp add: b)
  with r show ?thesis by simp
qed

lemma find_match_above_cutoff:
  assumes "shapes_ok known q" and "i < length known"
    and "one_minus lib t < cosine_entry lib known q i"
  shows "\<exists>j<length known. find_match lib known q t = Inr (Some j)"
proof -
  from assms(2) have ne: "known \<noteq> []" by auto
  from find_match_cases [OF ne assms(1), of lib t] obtain j where
    j: "first_max_index (sims_of lib known q) j"
       "find_match lib known q t =
          Inr (if sims_of lib known q ! j > one_minus lib t then Some j else None)"
    by blast
  from j(1) assms(2) have "sims_of lib known q ! i \<le> sims_of lib known q ! j"
    by (simp add: first_max_index_def)
  with assms(2,3) have "one_minus lib t < sims_of lib known q ! j"
    by (simp add: sims_of_nth)
  with j have "find_match lib known q t = Inr (Some j)" "j < length known"
    by (simp_all add: first_max_index_def)
  then show ?thesis by blast
qed

text \<open>
  C9, as amended. Against a store that keeps what is appended and returns it on the
  next fetch: for an embedding of dimension 128 that survives serialisation and
  parsing, valid names and ids, a first registration whose match finds nobody, and a
  library that computes, between the embedding and its reloaded copy, a similarity
  greater than the computed \<open>1 - 0.4\<close>: the first registration shows "Registered
  successfully" and appends the row; after the reload that the handler itself performs,
  a second registration of the same embedding, under any valid name and id, is skipped
  as the same person as one of the known names, and writes nothing.
\<close>

theorem register_same_face_twice:
  fixes a :: "json list app"
  assumes "strip name1 \<noteq> []" and "strip sid1 \<noteq> []"
    and "strip name2 \<noteq> []" and "strip sid2 \<noteq> []"
    and "length e = 128"
    and "parse (JStr (join '','' (map fmt e))) = Inr e"
    and "list_all is_obj (world a)"
    and "find_match lib (embs_known a) e default_threshold = Inr None"
    and "one_minus lib default_threshold <
           cosine_entry lib (reloaded_embs (sheet_env parse fmt clock) (world a) @ [e]) e
             (length (reloaded_embs (sheet_env parse fmt clock) (world a)))"
  shows "\<exists>a1 ws nm.
           register_click lib (sheet_env parse fmt clock) (Some e) name1 sid1 a = Inr a1 \<and>
           shown a1 = shown a @ Success_registered # ws \<and> list_all is_warning ws \<and>
           world a1 = world a @ [new_row (sheet_env parse fmt clock) (world a) name1 sid1 e] \<and>
           nm \<in> set (names_known a1) \<and>
           register_click lib (sheet_env parse fmt clock) (Some e) name2 sid2 a1 =
             Inr (a1\<lparr>shown := shown a1 @ [Info_same_person nm]\<rparr>)"
proof -
  let ?env = "sheet_env parse fmt clock"
  let ?row = "new_row ?env (world a) name1 sid1 e"
  let ?K = "filter (admitted ?env) (world a)"
  let ?E = "reloaded_embs ?env (world a)"
  let ?ws = "map (warning_for ?env) (filter (\<lambda>d. \<not> admitted ?env d) (world a))"
  let ?a1 = "a\<lparr>names_known := map name_of ?K @ [JStr (strip name1)],
            embs_known := ?E @ [e],
            full_data := ?K @ [?row],
            shown := shown a @ Success_registered # ?ws,
            posts := posts a @ [?row],
            world := world a @ [?row]\<rparr>"
  have r1: "register_click lib ?env (Some e) name1 sid1 a = Inr ?a1"
    using assms(1,2,8,7,6,5) by (rule register_on_sheet_no_match)
  have w: "list_all is_warning ?ws"
    by (simp add: list_all_iff warning_for_is_warning)
  have "list_all (\<lambda>k. length k = length e) ?E"
    by (simp add: reloaded_embs_def list_all_iff admitted_emb_length assms(5))
  with assms(5) have sh: "shapes_ok (?E @ [e]) e" by (simp add: shapes_ok_def)
  have il: "length ?E < length (?E @ [e])" by simp
  from find_match_above_cutoff [OF sh il assms(9)] obtain j where
    j: "j < length (?E @ [e])"
       "find_match lib (?E @ [e]) e default_threshold = Inr (Some j)"
    by auto
  let ?nm = "names_known ?a1 ! j"
  from j(1) have jn: "j < length (names_known ?a1)" by (simp add: reloaded_embs_def)
  then have mem: "?nm \<in> set (names_known ?a1)" by (rule nth_mem)
  have r2: "register_click lib ?env (Some e) name2 sid2 ?a1 =
             Inr (?a1\<lparr>shown := shown ?a1 @ [Info_same_person ?nm]\<rparr>)"
    using assms(3,4) j(2) jn by (simp add: register_click_def index_def display_def)
  have "register_click lib ?env (Some e) name1 sid1 a = Inr ?a1 \<and>
           shown ?a1 = shown a @ Success_registered # ?ws \<and> list_all is_warning ?ws \<and>
           world ?a1 = world a @ [?row] \<and>
           ?nm \<in> set (names_known ?a1) \<and>
           register_click lib ?env (Some e) name2 sid2 ?a1 =
             Inr (?a1\<lparr>shown := shown ?a1 @ [Info_same_person ?nm]\<rparr>)"
    using r1 w mem r2 by simp
  then show ?thesis by blast
qed

lemma find_match_zero_zero:
  "find_match lib01 [zero_emb] zero_emb default_threshold = Inr None"
  using one_minus_default
  by (simp add: find_match_def shapes_ok_def sims_of_def argmax_def zero_emb_facts
      cosine_entry_lib01 dot_unit_emb)

lemma zero_row_facts:
  "new_row (sheet_env fromstring01 str01 ''2024-05-01T09:00:00'') w ''Ann'' ''S1'' zero_emb = zero_row"
  "is_obj zero_row"
  "admitted (sheet_env fromstring01 str01 c) zero_row"
  "emb_of (sheet_env fromstring01 str01 c) zero_row = zero_emb"
  "name_of zero_row = JStr ''Ann''"
  by (simp_all add: new_row_def zero_row_def sheet_env_def strip_def isspace_def is_obj_def
      admitted_def parses_to_128_def has_name_def emb_of_def name_of_def subscript_def
      roundtrip_examples zero_emb_facts)

lemma row_ann_new:
  "new_row (sheet_env fromstring01 str01 ''2024-05-01T09:00:00'') w ''Ann'' ''S1'' unit_emb = row_ann"
  by (simp add: new_row_def row_ann_def sheet_env_def strip_def isspace_def)

theorem register_same_face_twice_counterexample:
  "register_click lib01 (sheet_env fromstring01 str01 ''2024-05-01T09:00:00'') (Some zero_emb) ''Ann'' ''S1'' app0
     = Inr zero_once \<and>
   register_click lib01 (sheet_env fromstring01 str01 ''2024-05-01T09:00:00'') (Some zero_emb) ''Ann'' ''S1'' zero_once
     = Inr zero_twice \<and>
   shown zero_once = [Success_registered] \<and>
   shown zero_twice = [Success_registered, Success_registered] \<and>
   world zero_twice = [zero_row, zero_row]"
proof -
  let ?env = "sheet_env fromstring01 str01 ''2024-05-01T09:00:00''"
  have v: "strip ''Ann'' \<noteq> []" "strip ''S1'' \<noteq> []" by (simp_all add: strip_def isspace_def)
  have 1: "register_click lib01 ?env (Some zero_emb) ''Ann'' ''S1'' app0 = Inr zero_once"
  proof -
    have f: "find_match lib01 (embs_known app0) zero_emb default_threshold = Inr None"
      by (simp add: app0_def find_match_def)
    have o: "list_all is_obj (world app0)" by (simp add: app0_def)
    show ?thesis
      unfolding register_on_sheet_no_match [where parse = fromstring01 and fmt = str01, OF v(1) v(2) f o roundtrip_examples(3) zero_emb_facts(1)]
      by (simp add: zero_row_facts reloaded_embs_def)
         (simp add: app0_def zero_once_def strip_def isspace_def)
  qed
  have 2: "register_click lib01 ?env (Some zero_emb) ''Ann'' ''S1'' zero_once = Inr zero_twice"
  proof -
    have f: "find_match lib01 (embs_known zero_once) zero_emb default_threshold = Inr None"
      using find_match_zero_zero by (simp add: zero_once_def)
    have o: "list_all is_obj (world zero_once)" by (simp add: zero_once_def zero_row_facts)
    show ?thesis
      unfolding register_on_sheet_no_match [where parse = fromstring01 and fmt = str01, OF v(1) v(2) f o roundtrip_examples(3) zero_emb_facts(1)]
      by (simp add: zero_row_facts reloaded_embs_def)
         (simp add: zero_once_def zero_twice_def zero_row_facts strip_def isspace_def)
  qed
  from 1 2 show ?thesis by (simp add: zero_once_def zero_twice_def)
qed

theorem register_same_face_twice_witness:
  "strip ''Ann'' \<noteq> [] \<and> strip ''S1'' \<noteq> [] \<and> strip ''Ann B.'' \<noteq> [] \<and> strip ''S2'' \<noteq> [] \<and>
   length unit_emb = 128 \<and>
   fromstring01 (JStr (join '','' (map str01 unit_emb))) = Inr unit_emb \<and>
   list_all is_obj (world app0) \<and>
   find_match lib01 (embs_known app0) unit_emb default_threshold = Inr None \<and>
   one_minus lib01 default_threshold < cosine_entry lib01 [unit_emb] unit_emb 0 \<and>
   register_click lib01 (sheet_env fromstring01 str01 ''2024-05-01T09:00:00'') (Some unit_emb) ''Ann'' ''S1'' app0
     = Inr (app_ann\<lparr>shown := [Success_registered], posts := [row_ann]\<rparr>) \<and>
   register_click lib01 (sheet_env fromstring01 str01 ''2024-05-01T09:00:00'') (Some unit_emb) ''Ann B.'' ''S2''
       (app_ann\<lparr>shown := [Success_registered], posts := [row_ann]\<rparr>)
     = Inr (app_ann\<lparr>shown := [Success_registered, Info_same_person (JStr ''Ann'')], posts := [row_ann]\<rparr>)"
proof -
  let ?env = "sheet_env fromstring01 str01 ''2024-05-01T09:00:00''"
  let ?a1 = "app_ann\<lparr>shown := [Success_registered], posts := [row_ann]\<rparr>"
  have v: "strip ''Ann'' \<noteq> []" "strip ''S1'' \<noteq> []" "strip ''Ann B.'' \<noteq> []" "strip ''S2'' \<noteq> []"
    by (simp_all add: strip_def isspace_def)
  have f: "find_match lib01 (embs_known app0) unit_emb default_threshold = Inr None"
    by (simp add: app0_def find_match_def)
  have o: "list_all is_obj (world app0)" by (simp add: app0_def)
  have c0: "one_minus lib01 default_threshold < cosine_entry lib01 [unit_emb] unit_emb 0"
    using one_minus_default(1) by (simp add: cosine_entry_lib01 dot_unit_emb)
  have c: "one_minus lib01 default_threshold <
           cosine_entry lib01 (reloaded_embs ?env (world app0) @ [unit_emb]) unit_emb
             (length (reloaded_embs ?env (world app0)))"
    using c0 by (simp add: reloaded_embs_def app0_def)
  from register_same_face_twice [where parse = fromstring01 and fmt = str01 and lib = lib01,
      OF v(1) v(2) v(3) v(4) unit_emb_facts(1) roundtrip_examples(1) o f c]
  obtain a1 ws nm where
    r1: "register_click lib01 ?env (Some unit_emb) ''Ann'' ''S1'' app0 = Inr a1" and
    sh: "shown a1 = shown app0 @ Success_registered # ws" and
    nm: "nm \<in> set (names_known a1)" and
    r2: "register_click lib01 ?env (Some unit_emb) ''Ann B.'' ''S2'' a1
           = Inr (a1\<lparr>shown := shown a1 @ [Info_same_person nm]\<rparr>)"
    by blast
  have "register_click lib01 ?env (Some unit_emb) ''Ann'' ''S1'' app0 = Inr ?a1"
    unfolding register_on_sheet_no_match [where parse = fromstring01 and fmt = str01, OF v(1) v(2) f o roundtrip_examples(1) unit_emb_facts(1)]
    by (simp add: row_ann_new reloaded_embs_def) (simp add: app0_def app_ann_def strip_def isspace_def)
  with r1 have a1: "a1 = ?a1" by simp
  with nm have "nm = JStr ''Ann''" by (simp add: app_ann_def)
  with r2 a1 have "register_click lib01 ?env (Some unit_emb) ''Ann B.'' ''S2'' ?a1
     = Inr (app_ann\<lparr>shown := [Success_registered, Info_same_person (JStr ''Ann'')], posts := [row_ann]\<rparr>)"
    by (simp add: app_ann_def)
  with v unit_emb_facts(1) roundtrip_examples(1) o f c0 r1 a1 show ?thesis by simp
qed

end
